theory Spec2Isabelle
  imports Complex_Main "HOL-Library.Word"
begin

section \<open>Strings\<close>

text \<open>
  A JavaScript string is a sequence of UTF-16 code units; \<open>length\<close>, \<open>substring\<close> and the
  regular-expression engine (without the \<open>u\<close> flag) all count and match code units.
  \<open>ustr\<close> embeds an ASCII literal.
\<close>

type_synonym jsstring = "16 word list"

definition ustr :: "string \<Rightarrow> jsstring" where
  "ustr s = map of_char s"

text \<open>The character classes of the pattern in \<open>validateUri\<close>:
  \<open>\w\<close> is \<open>[A-Za-z0-9_]\<close>, \<open>[\w-]\<close> adds the hyphen, and \<open>.\<close> (no \<open>s\<close> flag) is every
  code unit but the four line terminators LF, CR, U+2028 and U+2029.\<close>

definition word_char :: "16 word \<Rightarrow> bool" where
  "word_char c \<longleftrightarrow>
     (0x41 \<le> c \<and> c \<le> 0x5A) \<or> (0x61 \<le> c \<and> c \<le> 0x7A) \<or> (0x30 \<le> c \<and> c \<le> 0x39) \<or> c = 0x5F"

definition key_char :: "16 word \<Rightarrow> bool" where
  "key_char c \<longleftrightarrow> word_char c \<or> c = 0x2D"

definition line_terminator :: "16 word \<Rightarrow> bool" where
  "line_terminator c \<longleftrightarrow> c = 0x0A \<or> c = 0x0D \<or> c = 0x2028 \<or> c = 0x2029"

definition dot_char :: "16 word \<Rightarrow> bool" where
  "dot_char c \<longleftrightarrow> \<not> line_terminator c"

definition slash :: "16 word" where
  "slash = 0x2F"

fun strip_prefix :: "'a list \<Rightarrow> 'a list \<Rightarrow> 'a list option" where
  "strip_prefix [] ys = Some ys"
| "strip_prefix (x # xs) [] = None"
| "strip_prefix (x # xs) (y # ys) = (if x = y then strip_prefix xs ys else None)"

section \<open>Errors\<close>

text \<open>The exceptions the handlers and the validator throw. \<open>TypeError\<close> is the runtime's
  own, raised by a property read on \<open>null\<close> or \<open>undefined\<close>; \<open>ApiError\<close> is the plain
  \<open>Error\<close> carrying the upstream status text; \<open>JsonError\<close> is a body that does not parse.\<close>

datatype error =
    InvalidUriError jsstring
  | ResourceNotFoundError
  | ResourceAccessDeniedError
  | ApiError jsstring
  | JsonError
  | TypeError

section \<open>validateUri\<close>

record ResourceAddress =
  fileKey :: jsstring
  resourceType :: "jsstring option"
  resourceId :: "jsstring option"

definition scheme_file :: jsstring where
  "scheme_file = ustr ''figma:///file/''"

text \<open>
  \<open>uri.match(/^figma:\/\/\/file\/([\w-]+)(\/(\w+)(\/(.+))?)?$/)\<close>, read off the pattern:
  the literal prefix, group 1 the key, the optional group 2 holding group 3 (the type) and
  the optional group 4 holding group 5 (the id), anchored at both ends (no \<open>m\<close> flag, so
  \<open>$\<close> is the end of the input only). A group that did not take part is \<open>undefined\<close>.
\<close>

definition uri_regex :: "jsstring \<Rightarrow> jsstring \<Rightarrow> jsstring option \<Rightarrow> jsstring option \<Rightarrow> bool" where
  "uri_regex uri g1 g3 g5 \<longleftrightarrow>
     g1 \<noteq> [] \<and> list_all key_char g1 \<and>
     (case g3 of
        None \<Rightarrow> g5 = None \<and> uri = scheme_file @ g1
      | Some t \<Rightarrow> t \<noteq> [] \<and> list_all word_char t \<and>
          (case g5 of
             None \<Rightarrow> uri = scheme_file @ g1 @ slash # t
           | Some i \<Rightarrow> i \<noteq> [] \<and> list_all dot_char i \<and>
                uri = scheme_file @ g1 @ slash # t @ slash # i))"

text \<open>
  The matcher the pattern compiles to. \<open>/\<close> is in neither class, so each greedy run ends
  where the class ends and backtracking finds no other split (\<open>validateUri_regex\<close> below).
\<close>

definition validateUri :: "jsstring \<Rightarrow> error + ResourceAddress" where
  "validateUri uri =
     (case strip_prefix scheme_file uri of
        None \<Rightarrow> Inl (InvalidUriError uri)
      | Some r1 \<Rightarrow>
          let key = takeWhile key_char r1 in
          if key = [] then Inl (InvalidUriError uri)
          else
            (case dropWhile key_char r1 of
               [] \<Rightarrow> Inr \<lparr>fileKey = key, resourceType = None, resourceId = None\<rparr>
             | c # r2 \<Rightarrow>
                 let t = takeWhile word_char r2 in
                 if c \<noteq> slash \<or> t = [] then Inl (InvalidUriError uri)
                 else
                   (case dropWhile word_char r2 of
                      [] \<Rightarrow> Inr \<lparr>fileKey = key, resourceType = Some t, resourceId = None\<rparr>
                    | d # i \<Rightarrow>
                        if d = slash \<and> i \<noteq> [] \<and> list_all dot_char i
                        then Inr \<lparr>fileKey = key, resourceType = Some t, resourceId = Some i\<rparr>
                        else Inl (InvalidUriError uri))))"

text \<open>Re-assembling the components of an address with the separators of the pattern.\<close>

definition assemble :: "ResourceAddress \<Rightarrow> jsstring" where
  "assemble a =
     scheme_file @ fileKey a @
       (case resourceType a of
          None \<Rightarrow> []
        | Some t \<Rightarrow> slash # t @ (case resourceId a of None \<Rightarrow> [] | Some i \<Rightarrow> slash # i))"

text \<open>
  The address grammar in the words of the specification:
  \<open><scheme>:///file/<containerKey>[/<category>[/<subId>]]\<close>, the container key one or more
  word or hyphen characters, the category one or more word characters, the sub-identifier
  any remaining text (further slashes included) of a further path segment.
\<close>

definition address_grammar :: "jsstring \<Rightarrow> bool" where
  "address_grammar uri \<longleftrightarrow>
     (\<exists>key. key \<noteq> [] \<and> list_all key_char key \<and>
        (uri = scheme_file @ key \<or>
         (\<exists>cat. cat \<noteq> [] \<and> list_all word_char cat \<and>
            (uri = scheme_file @ key @ slash # cat \<or>
             (\<exists>sub. sub \<noteq> [] \<and> uri = scheme_file @ key @ slash # cat @ slash # sub)))))"

section \<open>Untyped values\<close>

text \<open>
  The raw payload is \<open>any\<close>: what \<open>response.json()\<close> parses, or whatever a caller hands
  to the exported transform. Numbers are the finite numbers of a JSON text; a field name is
  an ASCII literal of the code, so the keys of an object are plain strings, and an object is
  its list of fields, the first binding of a name being the one a read finds.
\<close>

datatype json =
    JUndefined
  | JNull
  | JBool bool
  | JNum real
  | JStr jsstring
  | JArr "json list"
  | JObj "(string \<times> json) list"

text \<open>
  \<open>v.k\<close> for a value that is neither \<open>null\<close> nor \<open>undefined\<close> (where the read throws;
  the callers guard it or fail, see \<open>transformFigmaNode\<close>): a field of an object, and
  \<open>undefined\<close> on a primitive or an array, which have none of the names the code reads.
  \<open>opt_get\<close> is the optional chaining \<open>v?.k\<close>.
\<close>

fun get :: "json \<Rightarrow> string \<Rightarrow> json" where
  "get (JObj kvs) k = (case map_of kvs k of None \<Rightarrow> JUndefined | Some v \<Rightarrow> v)"
| "get _ k = JUndefined"

fun opt_get :: "json \<Rightarrow> string \<Rightarrow> json" where
  "opt_get JUndefined k = JUndefined"
| "opt_get JNull k = JUndefined"
| "opt_get v k = get v k"

fun nullish :: "json \<Rightarrow> bool" where
  "nullish JUndefined = True"
| "nullish JNull = True"
| "nullish _ = False"

text \<open>Truthiness and the \<open>typeof\<close> tests the code makes.\<close>

fun truthy :: "json \<Rightarrow> bool" where
  "truthy JUndefined = False"
| "truthy JNull = False"
| "truthy (JBool b) = b"
| "truthy (JNum n) = (n \<noteq> 0)"
| "truthy (JStr s) = (s \<noteq> [])"
| "truthy (JArr xs) = True"
| "truthy (JObj kvs) = True"

fun typeof_object :: "json \<Rightarrow> bool" where
  "typeof_object JNull = True"
| "typeof_object (JArr xs) = True"
| "typeof_object (JObj kvs) = True"
| "typeof_object _ = False"

fun typeof_number :: "json \<Rightarrow> bool" where
  "typeof_number (JNum n) = True"
| "typeof_number _ = False"

fun typeof_string :: "json \<Rightarrow> bool" where
  "typeof_string (JStr s) = True"
| "typeof_string _ = False"

fun the_number :: "json \<Rightarrow> real" where
  "the_number (JNum n) = n"
| "the_number _ = 0"

fun the_string :: "json \<Rightarrow> jsstring" where
  "the_string (JStr s) = s"
| "the_string _ = []"

section \<open>The minimal node\<close>

text \<open>\<open>Color\<close>, \<open>Fill\<close> and \<open>MinimalFigmaNode\<close> of the transform module; an optional
  field is an \<open>option\<close>. The three identity fields are copied unchecked, so they stay
  untyped values.\<close>

record Color =
  color_r :: real
  color_g :: real
  color_b :: real
  color_a :: real

record Fill =
  fill_type :: jsstring
  fill_color :: "Color option"

record BoundingBox =
  box_x :: real
  box_y :: real
  box_width :: real
  box_height :: real

record Style =
  fontFamily :: "jsstring option"
  fontSize :: "real option"
  fontWeight :: "real option"
  letterSpacing :: "real option"
  lineHeight :: "real option"
  textAlignHorizontal :: "jsstring option"
  fills :: "Fill list option"

datatype MinimalFigmaNode =
  MinimalFigmaNode
    (node_id: json) (node_name: json) (node_type: json)
    (absoluteBoundingBox: "BoundingBox option")
    (node_style: "Style option")
    (characters: "jsstring option")
    (children: "MinimalFigmaNode list option")

section \<open>The transform\<close>

definition transformColor :: "json \<Rightarrow> Color option" where
  "transformColor color =
     (if \<not> truthy color \<or> \<not> typeof_object color then None
      else
        if \<not> typeof_number (get color ''r'') \<or> \<not> typeof_number (get color ''g'') \<or>
           \<not> typeof_number (get color ''b'') \<or> \<not> typeof_number (get color ''a'')
        then None
        else Some \<lparr>color_r = the_number (get color ''r''), color_g = the_number (get color ''g''),
                   color_b = the_number (get color ''b''), color_a = the_number (get color ''a'')\<rparr>)"

definition transformFill :: "json \<Rightarrow> Fill option" where
  "transformFill fill =
     (if \<not> truthy fill \<or> \<not> typeof_object fill \<or> \<not> typeof_string (get fill ''type'') then None
      else
        let result = \<lparr>fill_type = the_string (get fill ''type''), fill_color = None\<rparr> in
        if truthy (get fill ''color'') then
          (case transformColor (get fill ''color'') of
             Some c \<Rightarrow> Some (result\<lparr>fill_color := Some c\<rparr>)
           | None \<Rightarrow> Some result)
        else Some result)"

definition summarizeText :: "jsstring \<Rightarrow> nat \<Rightarrow> jsstring" where
  "summarizeText text maxLength =
     (if length text > maxLength then take maxLength text @ ustr ''...'' else text)"

text \<open>
  \<open>result\<close> starts as the empty object and each statement of \<open>transformStyle\<close> assigns
  one key of its own, so \<open>result\<close>, when the last statement is done, is the record of what
  each statement assigned, if anything (\<open>style_result\<close>);
  \<open>Object.keys(result).length > 0\<close> asks whether any of them did.
\<close>

definition empty_style :: Style where
  "empty_style = \<lparr>fontFamily = None, fontSize = None, fontWeight = None, letterSpacing = None,
     lineHeight = None, textAlignHorizontal = None, fills = None\<rparr>"

definition style_result :: "json \<Rightarrow> Style" where
  "style_result style =
          \<lparr>fontFamily =
             (if typeof_string (get style ''fontFamily'')
              then Some (the_string (get style ''fontFamily'')) else None),
           fontSize =
             (if typeof_number (get style ''fontSize'')
              then Some (the_number (get style ''fontSize'')) else None),
           fontWeight =
             (if typeof_number (get style ''fontWeight'')
              then Some (the_number (get style ''fontWeight'')) else None),
           letterSpacing =
             (if typeof_number (get style ''letterSpacing'')
              then Some (the_number (get style ''letterSpacing'')) else None),
           lineHeight =
             (if typeof_number (get style ''lineHeight'')
              then Some (the_number (get style ''lineHeight''))
              else if truthy (opt_get (get style ''lineHeight'') ''value'') \<and>
                      typeof_number (get (get style ''lineHeight'') ''value'')
              then Some (the_number (get (get style ''lineHeight'') ''value''))
              else None),
           textAlignHorizontal =
             (if typeof_string (get style ''textAlignHorizontal'')
              then Some (the_string (get style ''textAlignHorizontal'')) else None),
           fills =
             (case get style ''fills'' of
                JArr fs \<Rightarrow>
                  let fills' = List.map_filter transformFill fs in
                  if length fills' > 0 then Some fills' else None
              | _ \<Rightarrow> None)\<rparr>"

definition transformStyle :: "json \<Rightarrow> Style option" where
  "transformStyle style =
     (if \<not> truthy style \<or> \<not> typeof_object style then None
      else
        let result = style_result style
        in if result \<noteq> empty_style then Some result else None)"

text \<open>The size facts behind the recursion: an element of an array stored in a field of a
  node is smaller than the node.\<close>

lemma size_map_of: "map_of kvs k = Some v \<Longrightarrow> size v < Suc (size_list (size_prod (\<lambda>_. 0) size) kvs)"
  by (induction kvs) (auto split: if_splits)

lemma size_elem: "c \<in> set cs \<Longrightarrow> size c < size (JArr cs)"
  by (induction cs) auto

lemma size_get: "get node k = JArr cs \<Longrightarrow> c \<in> set cs \<Longrightarrow> size c < size node"
proof (cases node)
  case (JObj kvs)
  assume "get node k = JArr cs" and c: "c \<in> set cs"
  with JObj have "map_of kvs k = Some (JArr cs)"
    by (simp split: option.splits)
  then have "size (JArr cs) < size node"
    using JObj size_map_of[of kvs k "JArr cs"] by simp
  with size_elem[OF c] show ?thesis by simp
qed simp_all

text \<open>\<open>Array.prototype.map\<close> with a callback that may throw: the elements in order, up to
  the first exception.\<close>

fun collect :: "(error + 'a) list \<Rightarrow> error + 'a list" where
  "collect [] = Inr []"
| "collect (x # xs) =
     (case x of
        Inl e \<Rightarrow> Inl e
      | Inr v \<Rightarrow> (case collect xs of Inl e \<Rightarrow> Inl e | Inr vs \<Rightarrow> Inr (v # vs)))"

text \<open>The two blocks of \<open>transformFigmaNode\<close> that fill \<open>absoluteBoundingBox\<close> and
  \<open>characters\<close>; \<open>summarizeText\<close> is called with its default \<open>maxLength = 100\<close>.\<close>

definition node_box :: "json \<Rightarrow> BoundingBox option" where
  "node_box node =
     (if truthy (get node ''absoluteBoundingBox'') then
        let bb = get node ''absoluteBoundingBox'' in
        if typeof_number (get bb ''x'') \<and> typeof_number (get bb ''y'') \<and>
           typeof_number (get bb ''width'') \<and> typeof_number (get bb ''height'')
        then Some \<lparr>box_x = the_number (get bb ''x''), box_y = the_number (get bb ''y''),
               box_width = the_number (get bb ''width''),
               box_height = the_number (get bb ''height'')\<rparr>
        else None
      else None)"

definition node_text :: "json \<Rightarrow> jsstring option" where
  "node_text node =
     (if get node ''type'' = JStr (ustr ''TEXT'') \<and> typeof_string (get node ''characters'')
      then Some (summarizeText (the_string (get node ''characters'')) 100)
      else None)"

text \<open>\<open>node.id\<close> on \<open>null\<close> or \<open>undefined\<close> is the one unguarded read: it throws
  \<open>TypeError\<close>, in the node itself or, through \<open>map\<close>, in a child.\<close>

function transformFigmaNode :: "json \<Rightarrow> error + MinimalFigmaNode" where
  "transformFigmaNode node =
     (if nullish node then Inl TypeError
      else
        (case get node ''children'' of
           JArr cs \<Rightarrow>
             (case collect (map transformFigmaNode cs) of
                Inl e \<Rightarrow> Inl e
              | Inr ms \<Rightarrow>
                  Inr (MinimalFigmaNode (get node ''id'') (get node ''name'') (get node ''type'')
                         (node_box node) (transformStyle (get node ''style'')) (node_text node)
                         (Some ms)))
         | _ \<Rightarrow>
             Inr (MinimalFigmaNode (get node ''id'') (get node ''name'') (get node ''type'')
                    (node_box node) (transformStyle (get node ''style'')) (node_text node)
                    None)))"
  by pat_completeness auto
termination
  by (relation "measure size") (auto dest: size_get)

declare transformFigmaNode.simps [simp del]

text \<open>The raw trees on which no read throws: no node reached through \<open>children\<close> arrays
  is \<open>null\<close> or \<open>undefined\<close>.\<close>

function nodes_ok :: "json \<Rightarrow> bool" where
  "nodes_ok node \<longleftrightarrow>
     \<not> nullish node \<and>
     (case get node ''children'' of JArr cs \<Rightarrow> list_all nodes_ok cs | _ \<Rightarrow> True)"
  by pat_completeness auto
termination
  by (relation "measure size") (auto dest: size_get)

declare nodes_ok.simps [simp del]

section \<open>A minimal node read as a raw node\<close>

text \<open>The object a \<open>MinimalFigmaNode\<close> is at run time: the fields that are set, under the
  names of the interface.\<close>

definition opt_field :: "string \<Rightarrow> 'a option \<Rightarrow> ('a \<Rightarrow> json) \<Rightarrow> (string \<times> json) list" where
  "opt_field k v f = (case v of None \<Rightarrow> [] | Some w \<Rightarrow> [(k, f w)])"

definition color_json :: "Color \<Rightarrow> json" where
  "color_json c =
     JObj [(''r'', JNum (color_r c)), (''g'', JNum (color_g c)),
           (''b'', JNum (color_b c)), (''a'', JNum (color_a c))]"

definition fill_json :: "Fill \<Rightarrow> json" where
  "fill_json f = JObj ((''type'', JStr (fill_type f)) # opt_field ''color'' (fill_color f) color_json)"

definition box_json :: "BoundingBox \<Rightarrow> json" where
  "box_json bb =
     JObj [(''x'', JNum (box_x bb)), (''y'', JNum (box_y bb)),
           (''width'', JNum (box_width bb)), (''height'', JNum (box_height bb))]"

definition style_json :: "Style \<Rightarrow> json" where
  "style_json s =
     JObj (opt_field ''fontFamily'' (fontFamily s) JStr @
           opt_field ''fontSize'' (fontSize s) JNum @
           opt_field ''fontWeight'' (fontWeight s) JNum @
           opt_field ''letterSpacing'' (letterSpacing s) JNum @
           opt_field ''lineHeight'' (lineHeight s) JNum @
           opt_field ''textAlignHorizontal'' (textAlignHorizontal s) JStr @
           opt_field ''fills'' (fills s) (\<lambda>fs. JArr (map fill_json fs)))"

fun asRaw :: "MinimalFigmaNode \<Rightarrow> json" where
  "asRaw (MinimalFigmaNode i n t bb st ch cs) =
     JObj ([(''id'', i), (''name'', n), (''type'', t)] @
           opt_field ''absoluteBoundingBox'' bb box_json @
           opt_field ''style'' st style_json @
           opt_field ''characters'' ch JStr @
           (case cs of None \<Rightarrow> [] | Some ms \<Rightarrow> [(''children'', JArr (map asRaw ms))]))"

declare asRaw.simps [simp del]

text \<open>
  The invariants the specification gives a minimal node: a style is present only with at
  least one sub-field, and its fills only with at least one fill; a text is present only on
  a node of type \<open>TEXT\<close> and is bounded (at most 100 units, or 100 units and the marker);
  every child is a minimal node in turn.
\<close>

definition bounded_text :: "jsstring \<Rightarrow> bool" where
  "bounded_text t \<longleftrightarrow> length t \<le> 100 \<or> (length t = 103 \<and> drop 100 t = ustr ''...'')"

fun minimal :: "MinimalFigmaNode \<Rightarrow> bool" where
  "minimal (MinimalFigmaNode i n t bb st ch cs) \<longleftrightarrow>
     (case st of None \<Rightarrow> True | Some s \<Rightarrow> s \<noteq> empty_style \<and> fills s \<noteq> Some []) \<and>
     (case ch of None \<Rightarrow> True | Some txt \<Rightarrow> t = JStr (ustr ''TEXT'') \<and> bounded_text txt) \<and>
     (case cs of None \<Rightarrow> True | Some ms \<Rightarrow> list_all minimal ms)"

section \<open>The resource handler\<close>

text \<open>
  \<open>fetch\<close> is the world: it answers a URL with a response, or fails. \<open>figmaRequest\<close> makes
  exactly one fetch; beside its result the model returns the URLs fetched, in order, which
  is the only effect the handlers have (the debug log apart).
\<close>

record Response =
  resp_ok :: bool
  resp_status :: nat
  resp_statusText :: jsstring
  resp_json :: "json option"

definition baseUrl :: jsstring where
  "baseUrl = ustr ''https://api.figma.com/v1''"

definition figmaRequest ::
  "(jsstring \<Rightarrow> error + Response) \<Rightarrow> jsstring \<Rightarrow> (error + json) \<times> jsstring list" where
  "figmaRequest fetch path =
     ((case fetch (baseUrl @ path) of
         Inl e \<Rightarrow> Inl e
       | Inr response \<Rightarrow>
           if \<not> resp_ok response then
             (if resp_status response = 404 then Inl ResourceNotFoundError
              else if resp_status response = 403 then Inl ResourceAccessDeniedError
              else Inl (ApiError (ustr ''Figma API error: '' @ resp_statusText response)))
           else (case resp_json response of None \<Rightarrow> Inl JsonError | Some v \<Rightarrow> Inr v)),
      [baseUrl @ path])"

definition watch ::
  "(jsstring \<Rightarrow> error + Response) \<Rightarrow> jsstring \<Rightarrow> (error + unit) \<times> jsstring list" where
  "watch fetch uri =
     (case validateUri uri of
        Inl e \<Rightarrow> (Inl e, [])
      | Inr addr \<Rightarrow>
          if resourceType addr = Some (ustr ''file'') then
            (case figmaRequest fetch (ustr ''/files/'' @ fileKey addr) of
               (Inl e, fetched) \<Rightarrow> (Inl e, fetched)
             | (Inr v, fetched) \<Rightarrow> (Inr (), fetched))
          else (Inr (), []))"

text \<open>
  \<open>list\<close>, on the answer of \<open>figmaRequest('/me/files')\<close> with \<open>files.files\<close> read at its
  declared type \<open>FigmaFile[]\<close> (key and name are strings, which the template literals
  splice in; the two stamps are copied as they come).
\<close>

record FigmaFile =
  file_key :: jsstring
  file_name :: jsstring
  file_lastModified :: json
  file_thumbnailUrl :: json

record FigmaResource =
  res_uri :: jsstring
  res_type :: jsstring
  res_name :: jsstring
  res_metadata :: "(string \<times> json) list"

definition subResources :: "jsstring list" where
  "subResources =
     [ustr ''images'', ustr ''comments'', ustr ''versions'', ustr ''components'',
      ustr ''styles'', ustr ''variables'']"

definition main_resource :: "FigmaFile \<Rightarrow> FigmaResource" where
  "main_resource file =
     \<lparr>res_uri = ustr ''figma:///file/'' @ file_key file,
      res_type = ustr ''file'',
      res_name = file_name file,
      res_metadata = [(''lastModified'', file_lastModified file),
                      (''thumbnailUrl'', file_thumbnailUrl file)]\<rparr>"

definition sub_resource :: "FigmaFile \<Rightarrow> jsstring \<Rightarrow> FigmaResource" where
  "sub_resource file ty =
     \<lparr>res_uri = ustr ''figma:///file/'' @ file_key file @ ustr ''/'' @ ty,
      res_type = ty,
      res_name = file_name file @ ustr '' - '' @ ty,
      res_metadata = [(''fileKey'', JStr (file_key file)), (''fileName'', JStr (file_name file))]\<rparr>"

text \<open>The two loops, pushing onto \<open>resources\<close>.\<close>

fun push_subs :: "FigmaResource list \<Rightarrow> FigmaFile \<Rightarrow> jsstring list \<Rightarrow> FigmaResource list" where
  "push_subs resources file [] = resources"
| "push_subs resources file (ty # tys) = push_subs (resources @ [sub_resource file ty]) file tys"

fun push_files :: "FigmaResource list \<Rightarrow> FigmaFile list \<Rightarrow> FigmaResource list" where
  "push_files resources [] = resources"
| "push_files resources (file # files) =
     push_files (push_subs (resources @ [main_resource file]) file subResources) files"

definition list_resources :: "error + FigmaFile list \<Rightarrow> error + FigmaResource list" where
  "list_resources answer =
     (case answer of Inl e \<Rightarrow> Inl e | Inr files \<Rightarrow> Inr (push_files [] files))"

text \<open>What the listing covers for a document: the document itself (no category) and the
  six categories of \<open>subResources\<close>.\<close>

definition listed_categories :: "jsstring option list" where
  "listed_categories = [None, Some (ustr ''images''), Some (ustr ''comments''), Some (ustr ''versions''),
     Some (ustr ''components''), Some (ustr ''styles''), Some (ustr ''variables'')]"

section \<open>Sample inputs\<close>

text \<open>The raw values of the specification's scenarios, and a few beside them.\<close>

definition spec_text_node :: json where
  "spec_text_node =
     JObj [(''id'', JStr (ustr ''1'')), (''name'', JStr (ustr ''T'')),
           (''type'', JStr (ustr ''TEXT'')), (''characters'', JStr (replicate 150 0x78))]"

definition bad_box_node :: json where
  "bad_box_node =
     JObj [(''id'', JStr (ustr ''1'')), (''name'', JStr (ustr ''B'')), (''type'', JStr (ustr ''FRAME'')),
           (''absoluteBoundingBox'',
            JObj [(''x'', JNum 1), (''y'', JStr (ustr ''bad'')), (''width'', JNum 10), (''height'', JNum 10)])]"

definition untyped_fill :: json where
  "untyped_fill = JObj [(''color'', JObj [(''r'', JNum 1), (''g'', JNum 0), (''b'', JNum 0), (''a'', JNum 1)])]"

definition partial_color_fill :: json where
  "partial_color_fill =
     JObj [(''type'', JStr (ustr ''SOLID'')),
           (''color'', JObj [(''r'', JNum 1), (''g'', JStr (ustr ''x'')), (''b'', JNum 0)])]"

definition fills_style :: json where
  "fills_style = JObj [(''fills'', JArr [untyped_fill, partial_color_fill])]"

definition zero_line_height_style :: json where
  "zero_line_height_style =
     JObj [(''fontSize'', JNum 12),
           (''lineHeight'', JObj [(''value'', JNum 0), (''unit'', JStr (ustr ''PIXELS''))])]"

definition sample_file :: FigmaFile where
  "sample_file =
     \<lparr>file_key = ustr ''K'', file_name = ustr ''N'',
      file_lastModified = JStr (ustr ''2024-01-01T00:00:00Z''),
      file_thumbnailUrl = JStr (ustr ''https://t/k.png'')\<rparr>"

definition sample_minimal :: MinimalFigmaNode where
  "sample_minimal =
     MinimalFigmaNode (JStr (ustr ''0:1'')) (JStr (ustr ''Frame'')) (JStr (ustr ''FRAME''))
       (Some \<lparr>box_x = 0, box_y = 0, box_width = 100, box_height = 50\<rparr>) None None
       (Some [MinimalFigmaNode (JStr (ustr ''0:2'')) (JStr (ustr ''Title'')) (JStr (ustr ''TEXT''))
                None
                (Some \<lparr>fontFamily = Some (ustr ''Inter''), fontSize = Some 12, fontWeight = None,
                       letterSpacing = Some 0, lineHeight = Some 0, textAlignHorizontal = None,
                       fills = Some [\<lparr>fill_type = ustr ''SOLID'',
                                      fill_color = Some \<lparr>color_r = 1, color_g = 0, color_b = 0,
                                                          color_a = 1\<rparr>\<rparr>]\<rparr>)
                (Some (ustr ''Hello''))
                (Some [])])"

definition empty_style_node :: MinimalFigmaNode where
  "empty_style_node =
     MinimalFigmaNode (JStr (ustr ''0:3'')) (JStr (ustr ''Box'')) (JStr (ustr ''RECTANGLE''))
       None (Some empty_style) None None"

section \<open>Properties of validateUri\<close>

lemma strip_prefix_iff: "strip_prefix p s = Some r \<longleftrightarrow> s = p @ r"
  by (induction p s rule: strip_prefix.induct) auto

lemma slash_not_word: "\<not> word_char slash" "\<not> key_char slash"
  by (simp_all add: word_char_def key_char_def slash_def)

lemma run_then_slash:
  assumes "list_all P k" and "\<not> P s"
  shows "takeWhile P (k @ s # r) = k" and "dropWhile P (k @ s # r) = s # r"
  using assms by (simp_all add: list_all_iff)

lemma run_to_end:
  assumes "list_all P k"
  shows "takeWhile P k = k" and "dropWhile P k = []"
  using assms by (simp_all add: list_all_iff)

lemma validateUri_error: "validateUri uri = Inl e \<Longrightarrow> e = InvalidUriError uri"
  by (auto simp: validateUri_def Let_def split: option.splits list.splits if_splits)

lemma regex_accepts:
  assumes "uri_regex uri g1 g3 g5"
  shows "validateUri uri = Inr \<lparr>fileKey = g1, resourceType = g3, resourceId = g5\<rparr>"
proof (cases g3)
  case None
  with assms show ?thesis
    by (simp add: uri_regex_def validateUri_def strip_prefix_iff[THEN iffD2] run_to_end)
next
  case t: (Some t)
  show ?thesis
  proof (cases g5)
    case None
    with t assms show ?thesis
      by (simp add: uri_regex_def validateUri_def strip_prefix_iff[THEN iffD2]
          run_then_slash slash_not_word run_to_end)
  next
    case (Some i)
    with t assms show ?thesis
      by (simp add: uri_regex_def validateUri_def strip_prefix_iff[THEN iffD2]
          run_then_slash slash_not_word)
  qed
qed

lemma accepted_regex:
  assumes "validateUri uri = Inr a"
  shows "uri_regex uri (fileKey a) (resourceType a) (resourceId a)"
proof -
  obtain r1 where sp: "strip_prefix scheme_file uri = Some r1"
    using assms by (auto simp: validateUri_def split: option.splits)
  then have uri: "uri = scheme_file @ r1"
    by (simp add: strip_prefix_iff)
  define key where "key = takeWhile key_char r1"
  define rest where "rest = dropWhile key_char r1"
  have r1: "r1 = key @ rest" by (simp add: key_def rest_def)
  have ka: "list_all key_char key"
    by (auto simp: key_def list_all_iff dest: set_takeWhileD)
  have v: "validateUri uri =
     (if key = [] then Inl (InvalidUriError uri)
      else (case rest of
           [] \<Rightarrow> Inr \<lparr>fileKey = key, resourceType = None, resourceId = None\<rparr>
         | c # r2 \<Rightarrow>
             let t = takeWhile word_char r2 in
             if c \<noteq> slash \<or> t = [] then Inl (InvalidUriError uri)
             else
               (case dropWhile word_char r2 of
                  [] \<Rightarrow> Inr \<lparr>fileKey = key, resourceType = Some t, resourceId = None\<rparr>
                | d # i \<Rightarrow>
                    if d = slash \<and> i \<noteq> [] \<and> list_all dot_char i
                    then Inr \<lparr>fileKey = key, resourceType = Some t, resourceId = Some i\<rparr>
                    else Inl (InvalidUriError uri))))"
    unfolding validateUri_def sp key_def rest_def Let_def by simp
  have kne: "key \<noteq> []" using assms v by (auto split: if_splits)
  show ?thesis
  proof (cases rest)
    case Nil
    with assms v kne have "a = \<lparr>fileKey = key, resourceType = None, resourceId = None\<rparr>"
      by simp
    with ka kne uri r1 Nil show ?thesis
      by (simp add: uri_regex_def)
  next
    case (Cons c r2)
    define t where "t = takeWhile word_char r2"
    define rest2 where "rest2 = dropWhile word_char r2"
    have r2: "r2 = t @ rest2" by (simp add: t_def rest2_def)
    have ta: "list_all word_char t"
      by (auto simp: t_def list_all_iff dest: set_takeWhileD)
    have v2: "validateUri uri =
       (if c \<noteq> slash \<or> t = [] then Inl (InvalidUriError uri)
        else
          (case rest2 of
             [] \<Rightarrow> Inr \<lparr>fileKey = key, resourceType = Some t, resourceId = None\<rparr>
           | d # i \<Rightarrow>
               if d = slash \<and> i \<noteq> [] \<and> list_all dot_char i
               then Inr \<lparr>fileKey = key, resourceType = Some t, resourceId = Some i\<rparr>
               else Inl (InvalidUriError uri)))"
      using v kne Cons unfolding t_def rest2_def Let_def by simp
    have c: "c = slash" and tne: "t \<noteq> []"
      using assms v2 by (auto split: if_splits)
    show ?thesis
    proof (cases rest2)
      case Nil
      with assms v2 c tne
      have "a = \<lparr>fileKey = key, resourceType = Some t, resourceId = None\<rparr>"
        by simp
      with ka kne ta tne uri r1 r2 Cons Nil c show ?thesis
        by (simp add: uri_regex_def)
    next
      case d: (Cons d i)
      with assms v2 c tne
      have i: "d = slash" "i \<noteq> []" "list_all dot_char i"
        and "a = \<lparr>fileKey = key, resourceType = Some t, resourceId = Some i\<rparr>"
        by (auto split: if_splits)
      with ka kne ta tne uri r1 r2 Cons d c show ?thesis
        by (simp add: uri_regex_def)
    qed
  qed
qed

lemma validateUri_regex:
  "validateUri uri = Inr a \<longleftrightarrow> uri_regex uri (fileKey a) (resourceType a) (resourceId a)"
  using accepted_regex[of uri a] regex_accepts[of uri "fileKey a" "resourceType a" "resourceId a"]
  by auto

lemma regex_grammar: "uri_regex uri g1 g3 g5 \<Longrightarrow> address_grammar uri"
  unfolding uri_regex_def address_grammar_def
  by (auto split: option.splits)

lemma assemble_regex: "uri_regex uri (fileKey a) (resourceType a) (resourceId a) \<Longrightarrow> assemble a = uri"
  by (auto simp: uri_regex_def assemble_def split: option.splits)


lemma grammar_regex:
  assumes "address_grammar uri" and "list_all dot_char uri"
  shows "\<exists>g1 g3 g5. uri_regex uri g1 g3 g5"
proof -
  from assms(1) obtain key where key: "key \<noteq> []" "list_all key_char key"
    and alt: "uri = scheme_file @ key \<or>
      (\<exists>cat. cat \<noteq> [] \<and> list_all word_char cat \<and>
         (uri = scheme_file @ key @ slash # cat \<or>
          (\<exists>sub. sub \<noteq> [] \<and> uri = scheme_file @ key @ slash # cat @ slash # sub)))"
    unfolding address_grammar_def by blast
  from alt show ?thesis
  proof
    assume "uri = scheme_file @ key"
    with key have "uri_regex uri key None None"
      by (simp add: uri_regex_def)
    then show ?thesis by blast
  next
    assume "\<exists>cat. cat \<noteq> [] \<and> list_all word_char cat \<and>
         (uri = scheme_file @ key @ slash # cat \<or>
          (\<exists>sub. sub \<noteq> [] \<and> uri = scheme_file @ key @ slash # cat @ slash # sub))"
    then obtain cat where cat: "cat \<noteq> []" "list_all word_char cat"
      and alt2: "uri = scheme_file @ key @ slash # cat \<or>
          (\<exists>sub. sub \<noteq> [] \<and> uri = scheme_file @ key @ slash # cat @ slash # sub)"
      by blast
    from alt2 show ?thesis
    proof
      assume "uri = scheme_file @ key @ slash # cat"
      with key cat have "uri_regex uri key (Some cat) None"
        by (simp add: uri_regex_def)
      then show ?thesis by blast
    next
      assume "\<exists>sub. sub \<noteq> [] \<and> uri = scheme_file @ key @ slash # cat @ slash # sub"
      then obtain sub where sub: "sub \<noteq> []"
        and uri: "uri = scheme_file @ key @ slash # cat @ slash # sub"
        by blast
      from assms(2) uri have "list_all dot_char sub"
        by simp
      with key cat sub uri have "uri_regex uri key (Some cat) (Some sub)"
        by (simp add: uri_regex_def)
      then show ?thesis by blast
    qed
  qed
qed

lemma address_grammarI:
  assumes "key \<noteq> []" and "list_all key_char key"
  shows "address_grammar (scheme_file @ key)"
    and "cat \<noteq> [] \<Longrightarrow> list_all word_char cat \<Longrightarrow> address_grammar (scheme_file @ key @ slash # cat)"
    and "cat \<noteq> [] \<Longrightarrow> list_all word_char cat \<Longrightarrow> sub \<noteq> [] \<Longrightarrow>
           address_grammar (scheme_file @ key @ slash # cat @ slash # sub)"
  unfolding address_grammar_def using assms by blast+

lemma grammar_has_prefix: "address_grammar uri \<Longrightarrow> strip_prefix scheme_file uri \<noteq> None"
  unfolding address_grammar_def
  by (metis option.distinct(1) strip_prefix_iff)

subsection \<open>Round trip\<close>

text \<open>
  C5, as the specification states it, fails: \<open>figma:///file/ABC/nodes/a<LF>b\<close> matches the
  address grammar (its sub-identifier is the remaining text \<open>a<LF>b\<close>), and \<open>validateUri\<close>
  throws on it, because \<open>.\<close> does not match a line terminator.
\<close>

theorem resolve_grammar_counterexample:
  "address_grammar (ustr ''figma:///file/ABC/nodes/a'' @ [0x0A] @ ustr ''b'') \<and>
   validateUri (ustr ''figma:///file/ABC/nodes/a'' @ [0x0A] @ ustr ''b'') =
     Inl (InvalidUriError (ustr ''figma:///file/ABC/nodes/a'' @ [0x0A] @ ustr ''b''))"
proof
  have u: "ustr ''figma:///file/ABC/nodes/a'' @ [0x0A] @ ustr ''b'' =
        scheme_file @ ustr ''ABC'' @ slash # ustr ''nodes'' @ slash # (ustr ''a'' @ [0x0A] @ ustr ''b'')"
    by (simp add: ustr_def scheme_file_def slash_def)
  have "address_grammar (scheme_file @ ustr ''ABC'' @ slash # ustr ''nodes'' @ slash #
          (ustr ''a'' @ [0x0A] @ ustr ''b''))"
    by (rule address_grammarI(3)) (simp_all add: ustr_def key_char_def word_char_def)
  then show "address_grammar (ustr ''figma:///file/ABC/nodes/a'' @ [0x0A] @ ustr ''b'')"
    by (simp only: u)
next
  show "validateUri (ustr ''figma:///file/ABC/nodes/a'' @ [0x0A] @ ustr ''b'') =
     Inl (InvalidUriError (ustr ''figma:///file/ABC/nodes/a'' @ [0x0A] @ ustr ''b''))"
    by (simp add: validateUri_def ustr_def scheme_file_def slash_def key_char_def word_char_def
        dot_char_def line_terminator_def)
qed

text \<open>
  C5, amended: every identifier that matches the address grammar and holds no line
  terminator (LF, CR, U+2028, U+2029) resolves to an address; re-assembling the components
  of that address with the same separators gives the identifier back, and resolving the
  re-assembled string yields the same address.
\<close>

theorem resolve_roundtrip:
  assumes "address_grammar uri" and "list_all dot_char uri"
  shows "\<exists>a. validateUri uri = Inr a \<and> assemble a = uri \<and> validateUri (assemble a) = Inr a"
proof -
  from grammar_regex[OF assms] obtain g1 g3 g5 where m: "uri_regex uri g1 g3 g5"
    by blast
  let ?a = "\<lparr>fileKey = g1, resourceType = g3, resourceId = g5\<rparr>"
  have v: "validateUri uri = Inr ?a"
    by (rule regex_accepts[OF m])
  have "assemble ?a = uri"
    by (rule assemble_regex) (simp add: m)
  with v show ?thesis by simp
qed

theorem resolve_roundtrip_witness:
  "address_grammar (ustr ''figma:///file/ABC123/nodes/1:2,1:3'') \<and>
   list_all dot_char (ustr ''figma:///file/ABC123/nodes/1:2,1:3'') \<and>
   validateUri (ustr ''figma:///file/ABC123/nodes/1:2,1:3'') =
     Inr \<lparr>fileKey = ustr ''ABC123'', resourceType = Some (ustr ''nodes''),
          resourceId = Some (ustr ''1:2,1:3'')\<rparr> \<and>
   validateUri (assemble \<lparr>fileKey = ustr ''ABC123'', resourceType = Some (ustr ''nodes''),
          resourceId = Some (ustr ''1:2,1:3'')\<rparr>) =
     Inr \<lparr>fileKey = ustr ''ABC123'', resourceType = Some (ustr ''nodes''),
          resourceId = Some (ustr ''1:2,1:3'')\<rparr>"
proof -
  let ?u = "ustr ''figma:///file/ABC123/nodes/1:2,1:3''"
  have u: "?u = scheme_file @ ustr ''ABC123'' @ slash # ustr ''nodes'' @ slash # ustr ''1:2,1:3''"
    by (simp add: ustr_def scheme_file_def slash_def)
  have "address_grammar (scheme_file @ ustr ''ABC123'' @ slash # ustr ''nodes'' @ slash # ustr ''1:2,1:3'')"
    by (rule address_grammarI(3)) (simp_all add: ustr_def key_char_def word_char_def)
  then have g: "address_grammar ?u"
    by (simp only: u)
  have d: "list_all dot_char ?u"
    by (simp add: ustr_def dot_char_def line_terminator_def)
  have v: "validateUri ?u =
     Inr \<lparr>fileKey = ustr ''ABC123'', resourceType = Some (ustr ''nodes''),
          resourceId = Some (ustr ''1:2,1:3'')\<rparr>"
    by (simp add: validateUri_def ustr_def scheme_file_def slash_def key_char_def word_char_def
        dot_char_def line_terminator_def)
  from resolve_roundtrip[OF g d] have "validateUri (assemble (projr (validateUri ?u))) = validateUri ?u"
    by auto
  with g d v show ?thesis
    by simp
qed

subsection \<open>Rejection\<close>

text \<open>
  C7: an identifier that does not match the address grammar (no scheme, no \<open>file/\<close>
  segment, an empty container key, or text that matches only in part) makes \<open>validateUri\<close>
  throw \<open>InvalidUriError\<close>; the result is the error alone, never an address.
\<close>

theorem malformed_rejected:
  assumes "\<not> address_grammar uri"
  shows "validateUri uri = Inl (InvalidUriError uri)"
proof (cases "validateUri uri")
  case (Inl e)
  then show ?thesis using validateUri_error by blast
next
  case (Inr a)
  then have "address_grammar uri"
    using accepted_regex regex_grammar by blast
  with assms show ?thesis by simp
qed

theorem malformed_rejected_witness:
  "\<not> address_grammar (ustr ''not-a-uri'') \<and>
   validateUri (ustr ''not-a-uri'') = Inl (InvalidUriError (ustr ''not-a-uri''))"
proof -
  have "strip_prefix scheme_file (ustr ''not-a-uri'') = None"
    by (simp add: scheme_file_def ustr_def)
  then have n: "\<not> address_grammar (ustr ''not-a-uri'')"
    using grammar_has_prefix by blast
  from malformed_rejected[OF n] n show ?thesis by simp
qed

text \<open>The malformed shapes the specification lists, evaluated: no scheme, no \<open>file/\<close>
  segment, an empty key, and two partial matches.\<close>

lemma malformed_examples:
  "validateUri (ustr ''///file/ABC'') = Inl (InvalidUriError (ustr ''///file/ABC''))"
  "validateUri (ustr ''figma:///ABC'') = Inl (InvalidUriError (ustr ''figma:///ABC''))"
  "validateUri (ustr ''figma:///file/'') = Inl (InvalidUriError (ustr ''figma:///file/''))"
  "validateUri (ustr ''xfigma:///file/ABC'') = Inl (InvalidUriError (ustr ''xfigma:///file/ABC''))"
  "validateUri (ustr ''figma:///file/ABC?x'') = Inl (InvalidUriError (ustr ''figma:///file/ABC?x''))"
  by (simp_all add: validateUri_def ustr_def scheme_file_def slash_def key_char_def word_char_def)

text \<open>
  C10: a well-formed key and category followed by a bare trailing slash is rejected as a
  whole: the separator of the sub-identifier demands a non-empty sub-identifier.
\<close>

theorem trailing_slash_rejected:
  assumes "key \<noteq> []" and "list_all key_char key" and "cat \<noteq> []" and "list_all word_char cat"
  shows "validateUri (scheme_file @ key @ slash # cat @ [slash]) =
           Inl (InvalidUriError (scheme_file @ key @ slash # cat @ [slash]))"
  using assms
  by (simp add: validateUri_def strip_prefix_iff[THEN iffD2] run_then_slash slash_not_word)

theorem trailing_slash_rejected_witness:
  "ustr ''ABC'' \<noteq> [] \<and> list_all key_char (ustr ''ABC'') \<and>
   ustr ''nodes'' \<noteq> [] \<and> list_all word_char (ustr ''nodes'') \<and>
   validateUri (ustr ''figma:///file/ABC/nodes/'') =
     Inl (InvalidUriError (ustr ''figma:///file/ABC/nodes/''))"
proof -
  have k: "ustr ''ABC'' \<noteq> []" "list_all key_char (ustr ''ABC'')"
    by (simp_all add: ustr_def key_char_def word_char_def)
  have c: "ustr ''nodes'' \<noteq> []" "list_all word_char (ustr ''nodes'')"
    by (simp_all add: ustr_def word_char_def)
  have u: "scheme_file @ ustr ''ABC'' @ slash # ustr ''nodes'' @ [slash] =
           ustr ''figma:///file/ABC/nodes/''"
    by (simp add: ustr_def scheme_file_def slash_def)
  from trailing_slash_rejected[OF k c] k c u show ?thesis
    by simp
qed

section \<open>Properties of the transform\<close>

lemma typeof_number_iff: "typeof_number v \<longleftrightarrow> (\<exists>n. v = JNum n)"
  by (cases v) auto

lemma typeof_string_iff: "typeof_string v \<longleftrightarrow> (\<exists>s. v = JStr s)"
  by (cases v) auto

lemma get_truthy: "get v k \<noteq> JUndefined \<Longrightarrow> truthy v \<and> typeof_object v \<and> \<not> nullish v"
  by (cases v) auto

lemma opt_get_eq: "opt_get v k = get v k"
  by (cases v) auto

lemma typed_field_object:
  "typeof_number (get v k) \<Longrightarrow> truthy v \<and> typeof_object v \<and> \<not> nullish v"
  "typeof_string (get v k) \<Longrightarrow> truthy v \<and> typeof_object v \<and> \<not> nullish v"
  using get_truthy[of v k] by (cases "get v k"; simp)+

lemma transformColor_eq:
  "transformColor c =
     (if typeof_number (get c ''r'') \<and> typeof_number (get c ''g'') \<and>
         typeof_number (get c ''b'') \<and> typeof_number (get c ''a'')
      then Some \<lparr>color_r = the_number (get c ''r''), color_g = the_number (get c ''g''),
                 color_b = the_number (get c ''b''), color_a = the_number (get c ''a'')\<rparr>
      else None)"
  using typed_field_object(1)[of c "''r''"] by (auto simp: transformColor_def)

lemma transformFill_eq:
  "transformFill f =
     (if typeof_string (get f ''type'')
      then Some \<lparr>fill_type = the_string (get f ''type''),
                 fill_color = transformColor (get f ''color'')\<rparr>
      else None)"
proof -
  have "\<not> truthy v \<Longrightarrow> transformColor v = None" for v
    by (simp add: transformColor_def)
  then show ?thesis
    using typed_field_object(2)[of f "''type''"]
    by (auto simp: transformFill_def Let_def split: option.splits)
qed

lemma transformStyle_Some:
  "transformStyle sty = Some s \<longleftrightarrow>
     truthy sty \<and> typeof_object sty \<and> s = style_result sty \<and> s \<noteq> empty_style"
  unfolding transformStyle_def Let_def by auto

lemma line_height_eq:
  "lineHeight (style_result sty) =
     (case get sty ''lineHeight'' of
        JNum n \<Rightarrow> Some n
      | lh \<Rightarrow> (case get lh ''value'' of JNum n \<Rightarrow> if n = 0 then None else Some n | _ \<Rightarrow> None))"
  by (cases "get sty ''lineHeight''"; cases "get (get sty ''lineHeight'') ''value''")
     (simp_all add: style_result_def opt_get_eq)

lemma fills_eq:
  "fills (style_result sty) =
     (case get sty ''fills'' of
        JArr fs \<Rightarrow> if List.map_filter transformFill fs = [] then None
                   else Some (List.map_filter transformFill fs)
      | _ \<Rightarrow> None)"
  by (cases "get sty ''fills''") (simp_all add: style_result_def Let_def)

lemma collect_map_Inr: "collect (map Inr ys) = Inr ys"
  by (induction ys) simp_all

lemma collect_Inr_iff:
  "collect xs = Inr ys \<longleftrightarrow> xs = map Inr ys"
proof
  show "collect xs = Inr ys \<Longrightarrow> xs = map Inr ys"
    by (induction xs arbitrary: ys) (auto split: sum.splits)
qed (simp add: collect_map_Inr)

lemma collect_Inl:
  "collect xs = Inl e \<Longrightarrow> Inl e \<in> set xs"
  by (induction xs) (auto split: sum.splits)

lemma collect_cases:
  "(\<exists>e. Inl e \<in> set xs) \<or> (\<exists>ys. collect xs = Inr ys)"
proof (cases "collect xs")
  case (Inl e)
  then show ?thesis using collect_Inl by blast
qed blast

lemma transform_error: "transformFigmaNode node = Inl e \<Longrightarrow> e = TypeError"
proof (induction node rule: transformFigmaNode.induct)
  case (1 node)
  show ?case
  proof (cases "nullish node")
    case True
    with "1.prems" show ?thesis
      by (simp add: transformFigmaNode.simps)
  next
    case False
    show ?thesis
    proof (cases "get node ''children''")
      case (JArr cs)
      with False "1.prems" have "collect (map transformFigmaNode cs) = Inl e"
        by (simp add: transformFigmaNode.simps[of node] split: sum.splits)
      then obtain c where "c \<in> set cs" "transformFigmaNode c = Inl e"
        using collect_Inl by fastforce
      with "1.IH"[OF False JArr] show ?thesis by blast
    qed (use False "1.prems" in \<open>simp_all add: transformFigmaNode.simps[of node]\<close>)
  qed
qed

lemma transform_returns_iff: "(\<exists>m. transformFigmaNode node = Inr m) \<longleftrightarrow> nodes_ok node"
proof (induction node rule: transformFigmaNode.induct)
  case (1 node)
  show ?case
  proof (cases "nullish node")
    case True
    then show ?thesis
      by (simp add: transformFigmaNode.simps[of node] nodes_ok.simps[of node])
  next
    case False
    show ?thesis
    proof (cases "get node ''children''")
      case (JArr cs)
      have ih: "c \<in> set cs \<Longrightarrow> (\<exists>m. transformFigmaNode c = Inr m) \<longleftrightarrow> nodes_ok c" for c
        using "1.IH"[OF False JArr] by blast
      have "(\<exists>ms. collect (map transformFigmaNode cs) = Inr ms) \<longleftrightarrow> list_all nodes_ok cs"
      proof
        assume "\<exists>ms. collect (map transformFigmaNode cs) = Inr ms"
        then obtain ms where "map transformFigmaNode cs = map Inr ms"
          by (auto simp: collect_Inr_iff)
        then have "\<forall>c\<in>set cs. \<exists>m. transformFigmaNode c = Inr m"
          by (metis (no_types, lifting) imageE image_eqI list.set_map)
        with ih show "list_all nodes_ok cs"
          by (simp add: list_all_iff)
      next
        assume "list_all nodes_ok cs"
        with ih have "\<forall>c\<in>set cs. \<exists>m. transformFigmaNode c = Inr m"
          by (simp add: list_all_iff)
        then have "\<not> (\<exists>e. Inl e \<in> set (map transformFigmaNode cs))"
          by auto
        with collect_cases[of "map transformFigmaNode cs"]
        show "\<exists>ms. collect (map transformFigmaNode cs) = Inr ms"
          by blast
      qed
      with False JArr show ?thesis
        by (auto simp: transformFigmaNode.simps[of node] nodes_ok.simps[of node] split: sum.splits)
    qed (use False in \<open>simp_all add: transformFigmaNode.simps[of node] nodes_ok.simps[of node]\<close>)
  qed
qed

lemma transform_fields:
  assumes "transformFigmaNode node = Inr m"
  shows "node_id m = get node ''id''" and "node_name m = get node ''name''"
    and "node_type m = get node ''type''"
    and "absoluteBoundingBox m = node_box node"
    and "node_style m = transformStyle (get node ''style'')"
    and "characters m = node_text node"
  using assms
  by (auto simp: transformFigmaNode.simps[of node] split: if_splits json.splits sum.splits)

lemma transform_result:
  assumes "nodes_ok node"
  obtains m where "transformFigmaNode node = Inr m"
    and "absoluteBoundingBox m = node_box node"
    and "node_style m = transformStyle (get node ''style'')"
    and "characters m = node_text node"
  using assms transform_returns_iff[of node] transform_fields[of node] by blast

lemma nodes_ok_JObj:
  "nodes_ok (JObj kvs) \<longleftrightarrow>
     (case get (JObj kvs) ''children'' of JArr cs \<Rightarrow> list_all nodes_ok cs | _ \<Rightarrow> True)"
  by (simp add: nodes_ok.simps[of "JObj kvs"])

lemma nodes_ok_nullish: "\<not> nodes_ok JNull" "\<not> nodes_ok JUndefined"
  by (simp_all add: nodes_ok.simps[of JNull] nodes_ok.simps[of JUndefined])

lemma transformFigmaNode_JObj:
  "transformFigmaNode (JObj kvs) =
     (case get (JObj kvs) ''children'' of
        JArr cs \<Rightarrow>
          (case collect (map transformFigmaNode cs) of
             Inl e \<Rightarrow> Inl e
           | Inr ms \<Rightarrow>
               Inr (MinimalFigmaNode (get (JObj kvs) ''id'') (get (JObj kvs) ''name'')
                      (get (JObj kvs) ''type'') (node_box (JObj kvs))
                      (transformStyle (get (JObj kvs) ''style'')) (node_text (JObj kvs)) (Some ms)))
      | _ \<Rightarrow>
          Inr (MinimalFigmaNode (get (JObj kvs) ''id'') (get (JObj kvs) ''name'')
                 (get (JObj kvs) ''type'') (node_box (JObj kvs))
                 (transformStyle (get (JObj kvs) ''style'')) (node_text (JObj kvs)) None))"
  by (simp add: transformFigmaNode.simps[of "JObj kvs"])

lemma node_box_eq:
  "node_box node =
     (let bb = get node ''absoluteBoundingBox'' in
      if typeof_number (get bb ''x'') \<and> typeof_number (get bb ''y'') \<and>
         typeof_number (get bb ''width'') \<and> typeof_number (get bb ''height'')
      then Some \<lparr>box_x = the_number (get bb ''x''), box_y = the_number (get bb ''y''),
             box_width = the_number (get bb ''width''), box_height = the_number (get bb ''height'')\<rparr>
      else None)"
  using typed_field_object(1)[of "get node ''absoluteBoundingBox''" "''x''"]
  by (auto simp: node_box_def Let_def)

subsection \<open>Text\<close>

text \<open>
  C6: on a raw tree that normalizes, a node of type \<open>TEXT\<close> whose \<open>characters\<close> is a
  string of more than 100 units gets as text the first 100 units followed by the 3-unit
  marker \<open>...\<close>, 103 units in all; a string of at most 100 units is kept as it is.
\<close>

theorem text_truncated:
  assumes "nodes_ok node"
    and "get node ''type'' = JStr (ustr ''TEXT'')"
    and "get node ''characters'' = JStr s"
  shows "\<exists>m t. transformFigmaNode node = Inr m \<and> characters m = Some t \<and>
           (if 100 < length s then t = take 100 s @ ustr ''...'' \<and> length t = 103 else t = s)"
proof -
  from assms(1) obtain m where m: "transformFigmaNode node = Inr m"
    and c: "characters m = node_text node"
    by (rule transform_result)
  have "node_text node = Some (summarizeText s 100)"
    using assms(2,3) by (simp add: node_text_def)
  moreover have "length (ustr ''...'') = 3"
    by (simp add: ustr_def)
  ultimately show ?thesis
    using m c by (auto simp: summarizeText_def)
qed

theorem text_truncated_witness:
  "nodes_ok spec_text_node \<and>
   get spec_text_node ''type'' = JStr (ustr ''TEXT'') \<and>
   get spec_text_node ''characters'' = JStr (replicate 150 0x78) \<and>
   (\<exists>m. transformFigmaNode spec_text_node = Inr m \<and>
        characters m = Some (replicate 100 0x78 @ ustr ''...'') \<and>
        length (replicate 100 (0x78 :: 16 word) @ ustr ''...'') = 103)"
proof -
  have ok: "nodes_ok spec_text_node"
    by (simp add: nodes_ok_JObj spec_text_node_def)
  have ty: "get spec_text_node ''type'' = JStr (ustr ''TEXT'')"
    and ch: "get spec_text_node ''characters'' = JStr (replicate 150 0x78)"
    by (simp_all add: spec_text_node_def)
  from text_truncated[OF ok ty ch] ok ty ch show ?thesis
    by (auto simp: ustr_def)
qed

subsection \<open>Bounding box\<close>

text \<open>
  C8: the normalized node carries a bounding box exactly when all four of \<open>x\<close>, \<open>y\<close>,
  \<open>width\<close> and \<open>height\<close> of the raw box are numbers, and then it carries all four; when
  any of them is not a number the node has no bounding box at all.
\<close>

theorem bounding_box_all_or_nothing:
  assumes "nodes_ok node"
  shows "\<exists>m. transformFigmaNode node = Inr m \<and>
           absoluteBoundingBox m =
             (let bb = get node ''absoluteBoundingBox'' in
              if typeof_number (get bb ''x'') \<and> typeof_number (get bb ''y'') \<and>
                 typeof_number (get bb ''width'') \<and> typeof_number (get bb ''height'')
              then Some \<lparr>box_x = the_number (get bb ''x''), box_y = the_number (get bb ''y''),
                     box_width = the_number (get bb ''width''),
                     box_height = the_number (get bb ''height'')\<rparr>
              else None)"
proof -
  from assms obtain m where "transformFigmaNode node = Inr m"
    and "absoluteBoundingBox m = node_box node"
    by (rule transform_result)
  then show ?thesis
    using node_box_eq[of node] by auto
qed

theorem bounding_box_all_or_nothing_witness:
  "nodes_ok bad_box_node \<and>
   transformFigmaNode bad_box_node =
     Inr (MinimalFigmaNode (JStr (ustr ''1'')) (JStr (ustr ''B'')) (JStr (ustr ''FRAME''))
            None None None None)"
proof -
  have ok: "nodes_ok bad_box_node"
    by (simp add: nodes_ok_JObj bad_box_node_def)
  have "transformFigmaNode bad_box_node =
     Inr (MinimalFigmaNode (JStr (ustr ''1'')) (JStr (ustr ''B'')) (JStr (ustr ''FRAME''))
            None None None None)"
    by (simp add: transformFigmaNode_JObj bad_box_node_def node_box_def
        node_text_def transformStyle_def ustr_def)
  with bounding_box_all_or_nothing[OF ok] ok show ?thesis
    by simp
qed

subsection \<open>Fills\<close>

text \<open>
  C9: a fill without a string \<open>type\<close> is dropped; a fill with a string \<open>type\<close> whose
  colour lacks a numeric channel among \<open>r\<close>, \<open>g\<close>, \<open>b\<close>, \<open>a\<close> is kept without a colour;
  the extracted style has fills only when they are the non-empty list of the fills that
  survived, and it has them whenever at least one survived.
\<close>

theorem fills_validated:
  "(\<not> typeof_string (get fill ''type'') \<longrightarrow> transformFill fill = None) \<and>
   (typeof_string (get fill ''type'') \<and>
    \<not> (typeof_number (get (get fill ''color'') ''r'') \<and> typeof_number (get (get fill ''color'') ''g'') \<and>
       typeof_number (get (get fill ''color'') ''b'') \<and> typeof_number (get (get fill ''color'') ''a'')) \<longrightarrow>
      transformFill fill = Some \<lparr>fill_type = the_string (get fill ''type''), fill_color = None\<rparr>) \<and>
   (transformStyle sty = Some s \<longrightarrow>
      (case fills s of
         None \<Rightarrow> True
       | Some kept \<Rightarrow> kept \<noteq> [] \<and>
           (\<exists>fs. get sty ''fills'' = JArr fs \<and> kept = List.map_filter transformFill fs))) \<and>
   (get sty ''fills'' = JArr fs \<and> List.map_filter transformFill fs \<noteq> [] \<longrightarrow>
      (\<exists>s'. transformStyle sty = Some s' \<and> fills s' = Some (List.map_filter transformFill fs)))"
proof (intro conjI impI)
  show "transformFill fill = None" if "\<not> typeof_string (get fill ''type'')"
    using that by (simp add: transformFill_eq)
next
  assume "typeof_string (get fill ''type'') \<and>
    \<not> (typeof_number (get (get fill ''color'') ''r'') \<and> typeof_number (get (get fill ''color'') ''g'') \<and>
       typeof_number (get (get fill ''color'') ''b'') \<and> typeof_number (get (get fill ''color'') ''a''))"
  then show "transformFill fill = Some \<lparr>fill_type = the_string (get fill ''type''), fill_color = None\<rparr>"
    by (simp add: transformFill_eq transformColor_eq)
next
  assume "transformStyle sty = Some s"
  then have "s = style_result sty"
    by (simp add: transformStyle_Some)
  then show "case fills s of
         None \<Rightarrow> True
       | Some kept \<Rightarrow> kept \<noteq> [] \<and>
           (\<exists>fs. get sty ''fills'' = JArr fs \<and> kept = List.map_filter transformFill fs)"
    by (cases "get sty ''fills''") (simp_all add: fills_eq)
next
  assume a: "get sty ''fills'' = JArr fs \<and> List.map_filter transformFill fs \<noteq> []"
  then have f: "fills (style_result sty) = Some (List.map_filter transformFill fs)"
    by (simp add: fills_eq)
  then have "style_result sty \<noteq> empty_style"
    by (auto simp: empty_style_def)
  moreover have "truthy sty \<and> typeof_object sty"
    using a get_truthy[of sty "''fills''"] by simp
  ultimately have "transformStyle sty = Some (style_result sty)"
    by (simp add: transformStyle_Some)
  with f show "\<exists>s'. transformStyle sty = Some s' \<and> fills s' = Some (List.map_filter transformFill fs)"
    by blast
qed

lemma fills_examples:
  "transformFill untyped_fill = None"
  "transformFill partial_color_fill = Some \<lparr>fill_type = ustr ''SOLID'', fill_color = None\<rparr>"
  by (simp_all add: transformFill_eq transformColor_eq untyped_fill_def partial_color_fill_def)

lemma fills_style_example:
  "transformStyle fills_style =
     Some (empty_style\<lparr>fills := Some [\<lparr>fill_type = ustr ''SOLID'', fill_color = None\<rparr>]\<rparr>)"
proof -
  have "style_result fills_style =
          empty_style\<lparr>fills := Some [\<lparr>fill_type = ustr ''SOLID'', fill_color = None\<rparr>]\<rparr>"
    by (simp add: style_result_def fills_style_def empty_style_def List.map_filter_simps fills_examples)
  then show ?thesis
    by (simp add: transformStyle_Some fills_style_def empty_style_def)
qed

theorem fills_validated_witness:
  "\<not> typeof_string (get untyped_fill ''type'') \<and> transformFill untyped_fill = None \<and>
   typeof_string (get partial_color_fill ''type'') \<and>
   \<not> typeof_number (get (get partial_color_fill ''color'') ''g'') \<and>
   transformFill partial_color_fill = Some \<lparr>fill_type = ustr ''SOLID'', fill_color = None\<rparr> \<and>
   get fills_style ''fills'' = JArr [untyped_fill, partial_color_fill] \<and>
   List.map_filter transformFill [untyped_fill, partial_color_fill] \<noteq> [] \<and>
   transformStyle fills_style =
     Some (empty_style\<lparr>fills := Some [\<lparr>fill_type = ustr ''SOLID'', fill_color = None\<rparr>]\<rparr>)"
proof -
  have h1: "\<not> typeof_string (get untyped_fill ''type'')"
    by (simp add: untyped_fill_def)
  have h2: "typeof_string (get partial_color_fill ''type'')"
    and h3: "\<not> typeof_number (get (get partial_color_fill ''color'') ''g'')"
    and t: "the_string (get partial_color_fill ''type'') = ustr ''SOLID''"
    by (simp_all add: partial_color_fill_def)
  have h4: "get fills_style ''fills'' = JArr [untyped_fill, partial_color_fill]"
    by (simp add: fills_style_def)
  have h5: "List.map_filter transformFill [untyped_fill, partial_color_fill] =
            [\<lparr>fill_type = ustr ''SOLID'', fill_color = None\<rparr>]"
    by (simp add: List.map_filter_simps fills_examples)
  have h5': "List.map_filter transformFill [untyped_fill, partial_color_fill] \<noteq> []"
    unfolding h5 by simp
  have h6: "transformStyle fills_style =
     Some (empty_style\<lparr>fills := Some [\<lparr>fill_type = ustr ''SOLID'', fill_color = None\<rparr>]\<rparr>)"
    by (rule fills_style_example)
  have a: "transformFill untyped_fill = None"
    using fills_validated[THEN conjunct1] h1 by blast
  have b: "transformFill partial_color_fill =
             Some \<lparr>fill_type = the_string (get partial_color_fill ''type''), fill_color = None\<rparr>"
    using fills_validated[THEN conjunct2, THEN conjunct1] h2 h3 by blast
  have "\<exists>s'. transformStyle fills_style = Some s' \<and>
          fills s' = Some (List.map_filter transformFill [untyped_fill, partial_color_fill])"
    using fills_validated[THEN conjunct2, THEN conjunct2, THEN conjunct2] h4 h5' by blast
  with a b t h1 h2 h3 h4 h5' h6 show ?thesis
    by simp
qed

subsection \<open>Line height\<close>

text \<open>A bare number is taken as it is, zero included; the \<open>value\<close> of an object is taken
  when it is a number other than zero.\<close>

lemma line_height_bare:
  assumes "get sty ''lineHeight'' = JNum n"
  shows "transformStyle sty = Some (style_result sty)" and "lineHeight (style_result sty) = Some n"
proof -
  show l: "lineHeight (style_result sty) = Some n"
    using assms by (simp add: line_height_eq)
  then have "style_result sty \<noteq> empty_style"
    by (auto simp: empty_style_def)
  moreover have "truthy sty \<and> typeof_object sty"
    using assms get_truthy[of sty "''lineHeight''"] by simp
  ultimately show "transformStyle sty = Some (style_result sty)"
    by (simp add: transformStyle_Some)
qed

lemma line_height_object:
  assumes "\<not> typeof_number (get sty ''lineHeight'')"
    and "get (get sty ''lineHeight'') ''value'' = JNum n" and "n \<noteq> 0"
  shows "transformStyle sty = Some (style_result sty)" and "lineHeight (style_result sty) = Some n"
proof -
  show l: "lineHeight (style_result sty) = Some n"
    using assms by (cases "get sty ''lineHeight''") (simp_all add: line_height_eq)
  then have "style_result sty \<noteq> empty_style"
    by (auto simp: empty_style_def)
  moreover have "get sty ''lineHeight'' \<noteq> JUndefined"
    using assms(2) by auto
  then have "truthy sty \<and> typeof_object sty"
    using get_truthy[of sty "''lineHeight''"] by simp
  ultimately show "transformStyle sty = Some (style_result sty)"
    by (simp add: transformStyle_Some)
qed

text \<open>
  C3: the claim is that a numeric \<open>value\<close> of a line-height object always becomes the
  line height. The guard \<open>style.lineHeight?.value && ...\<close> tests the value for truthiness
  first, so the number \<open>0\<close> is lost: with \<open>{value: 0, unit: "PIXELS"}\<close> the style comes
  out without a line height (and, when nothing else is set, there is no style at all),
  whereas the bare number \<open>0\<close> is kept.
\<close>

theorem line_height_zero_dropped:
  "transformStyle zero_line_height_style = Some (empty_style\<lparr>fontSize := Some 12\<rparr>) \<and>
   transformStyle (JObj [(''lineHeight'', JObj [(''value'', JNum 0), (''unit'', JStr (ustr ''PIXELS''))])]) = None \<and>
   transformStyle (JObj [(''lineHeight'', JNum 0)]) = Some (empty_style\<lparr>lineHeight := Some 0\<rparr>)"
  by (simp add: transformStyle_def style_result_def zero_line_height_style_def empty_style_def)

theorem line_height_zero_dropped_witness:
  "map_option lineHeight (transformStyle zero_line_height_style) = Some None \<and>
   map_option lineHeight (transformStyle (JObj [(''lineHeight'', JNum 0)])) = Some (Some 0)"
  using line_height_zero_dropped by (simp add: empty_style_def)

lemma line_height_spec_example:
  "transformStyle (JObj [(''lineHeight'', JObj [(''value'', JNum 24), (''unit'', JStr (ustr ''PIXELS''))])]) =
     Some (empty_style\<lparr>lineHeight := Some 24\<rparr>)"
  by (simp add: transformStyle_def style_result_def empty_style_def)

subsection \<open>Minimal nodes read back\<close>

lemma map_of_opt_field:
  "map_of (opt_field k v f @ rest) k' =
     (if k' = k then (case v of None \<Rightarrow> map_of rest k' | Some w \<Rightarrow> Some (f w)) else map_of rest k')"
  "map_of (opt_field k v f) k' =
     (if k' = k then (case v of None \<Rightarrow> None | Some w \<Rightarrow> Some (f w)) else None)"
  by (cases v; simp add: opt_field_def)+

lemma get_asRaw:
  "get (asRaw m) ''id'' = node_id m"
  "get (asRaw m) ''name'' = node_name m"
  "get (asRaw m) ''type'' = node_type m"
  "get (asRaw m) ''absoluteBoundingBox'' =
     (case absoluteBoundingBox m of None \<Rightarrow> JUndefined | Some bb \<Rightarrow> box_json bb)"
  "get (asRaw m) ''style'' = (case node_style m of None \<Rightarrow> JUndefined | Some s \<Rightarrow> style_json s)"
  "get (asRaw m) ''characters'' = (case characters m of None \<Rightarrow> JUndefined | Some t \<Rightarrow> JStr t)"
  "get (asRaw m) ''children'' =
     (case children m of None \<Rightarrow> JUndefined | Some ms \<Rightarrow> JArr (map asRaw ms))"
  by (cases m; simp add: asRaw.simps map_of_opt_field del: map_of_append split: option.splits)+

lemma transformColor_json: "transformColor (color_json c) = Some c"
  by (simp add: transformColor_eq color_json_def)

lemma transformFill_json: "transformFill (fill_json f) = Some f"
proof -
  have "transformColor (get (fill_json f) ''color'') = fill_color f"
    by (cases "fill_color f")
       (simp_all add: fill_json_def opt_field_def transformColor_json, simp add: transformColor_eq)
  then show ?thesis
    by (simp add: transformFill_eq fill_json_def)
qed

lemma map_filter_fill_json: "List.map_filter transformFill (map fill_json fs) = fs"
  by (induction fs) (simp_all add: List.map_filter_simps transformFill_json)

lemma get_style_json:
  "get (style_json s) ''fontFamily'' = (case fontFamily s of None \<Rightarrow> JUndefined | Some w \<Rightarrow> JStr w)"
  "get (style_json s) ''fontSize'' = (case fontSize s of None \<Rightarrow> JUndefined | Some w \<Rightarrow> JNum w)"
  "get (style_json s) ''fontWeight'' = (case fontWeight s of None \<Rightarrow> JUndefined | Some w \<Rightarrow> JNum w)"
  "get (style_json s) ''letterSpacing'' = (case letterSpacing s of None \<Rightarrow> JUndefined | Some w \<Rightarrow> JNum w)"
  "get (style_json s) ''lineHeight'' = (case lineHeight s of None \<Rightarrow> JUndefined | Some w \<Rightarrow> JNum w)"
  "get (style_json s) ''textAlignHorizontal'' =
     (case textAlignHorizontal s of None \<Rightarrow> JUndefined | Some w \<Rightarrow> JStr w)"
  "get (style_json s) ''fills'' =
     (case fills s of None \<Rightarrow> JUndefined | Some fs \<Rightarrow> JArr (map fill_json fs))"
  by (simp_all add: style_json_def map_of_opt_field del: map_of_append split: option.splits)

lemma style_result_json:
  "fontFamily (style_result (style_json s)) = fontFamily s"
  "fontSize (style_result (style_json s)) = fontSize s"
  "fontWeight (style_result (style_json s)) = fontWeight s"
  "letterSpacing (style_result (style_json s)) = letterSpacing s"
  "lineHeight (style_result (style_json s)) = lineHeight s"
  "textAlignHorizontal (style_result (style_json s)) = textAlignHorizontal s"
  "fills (style_result (style_json s)) = (if fills s = Some [] then None else fills s)"
proof -
  show "fontFamily (style_result (style_json s)) = fontFamily s"
    by (cases "fontFamily s") (simp_all add: style_result_def get_style_json(1))
  show "fontSize (style_result (style_json s)) = fontSize s"
    by (cases "fontSize s") (simp_all add: style_result_def get_style_json(2))
  show "fontWeight (style_result (style_json s)) = fontWeight s"
    by (cases "fontWeight s") (simp_all add: style_result_def get_style_json(3))
  show "letterSpacing (style_result (style_json s)) = letterSpacing s"
    by (cases "letterSpacing s") (simp_all add: style_result_def get_style_json(4))
  show "lineHeight (style_result (style_json s)) = lineHeight s"
    by (cases "lineHeight s") (simp_all add: line_height_eq get_style_json(5))
  show "textAlignHorizontal (style_result (style_json s)) = textAlignHorizontal s"
    by (cases "textAlignHorizontal s") (simp_all add: style_result_def get_style_json(6))
  show "fills (style_result (style_json s)) = (if fills s = Some [] then None else fills s)"
    by (cases "fills s") (simp_all add: fills_eq get_style_json(7) map_filter_fill_json)
qed

lemma transformStyle_json:
  assumes "s \<noteq> empty_style" and "fills s \<noteq> Some []"
  shows "transformStyle (style_json s) = Some s"
proof -
  have "style_result (style_json s) = s"
    using assms(2) by (intro Style.equality) (simp_all add: style_result_json)
  moreover have "truthy (style_json s) \<and> typeof_object (style_json s)"
    by (simp add: style_json_def)
  ultimately show ?thesis
    using assms(1) by (simp add: transformStyle_Some)
qed

lemma node_box_asRaw: "node_box (asRaw m) = absoluteBoundingBox m"
  by (cases "absoluteBoundingBox m") (simp_all add: node_box_def get_asRaw box_json_def)

lemma summarizeText_bounded: "bounded_text t \<Longrightarrow> summarizeText t 100 = t"
proof -
  assume "bounded_text t"
  then consider "length t \<le> 100" | "length t = 103" "drop 100 t = ustr ''...''"
    by (auto simp: bounded_text_def)
  then show ?thesis
  proof cases
    case 1
    then show ?thesis by (simp add: summarizeText_def)
  next
    case 2
    have "take 100 t @ drop 100 t = t" by simp
    with 2 show ?thesis by (simp add: summarizeText_def)
  qed
qed

lemma bounded_summarizeText: "bounded_text (summarizeText t 100)"
  by (simp add: bounded_text_def summarizeText_def ustr_def)

lemma node_text_asRaw:
  assumes "case characters m of None \<Rightarrow> True
           | Some t \<Rightarrow> node_type m = JStr (ustr ''TEXT'') \<and> bounded_text t"
  shows "node_text (asRaw m) = characters m"
  using assms
  by (cases "characters m") (simp_all add: node_text_def get_asRaw summarizeText_bounded)

lemma collect_fixed:
  assumes "\<And>x. x \<in> set xs \<Longrightarrow> f (g x) = Inr x"
  shows "collect (map f (map g xs)) = Inr xs"
  using assms by (induction xs) simp_all

lemma asRaw_not_nullish: "\<not> nullish (asRaw m)"
  by (cases m) (simp add: asRaw.simps)

lemma minimal_iff:
  "minimal m \<longleftrightarrow>
     (case node_style m of None \<Rightarrow> True | Some s \<Rightarrow> s \<noteq> empty_style \<and> fills s \<noteq> Some []) \<and>
     (case characters m of None \<Rightarrow> True
      | Some t \<Rightarrow> node_type m = JStr (ustr ''TEXT'') \<and> bounded_text t) \<and>
     (case children m of None \<Rightarrow> True | Some ms \<Rightarrow> list_all minimal ms)"
  by (cases m) (simp split: option.splits)

lemma transform_leaf:
  assumes "\<not> nullish node" and "\<forall>cs. get node ''children'' \<noteq> JArr cs"
  shows "transformFigmaNode node =
           Inr (MinimalFigmaNode (get node ''id'') (get node ''name'') (get node ''type'')
                  (node_box node) (transformStyle (get node ''style'')) (node_text node) None)"
  using assms by (cases "get node ''children''") (simp_all add: transformFigmaNode.simps[of node])

lemma transform_inner:
  assumes "\<not> nullish node" and "get node ''children'' = JArr cs"
    and "collect (map transformFigmaNode cs) = Inr ms"
  shows "transformFigmaNode node =
           Inr (MinimalFigmaNode (get node ''id'') (get node ''name'') (get node ''type'')
                  (node_box node) (transformStyle (get node ''style'')) (node_text node) (Some ms))"
  using assms by (simp add: transformFigmaNode.simps[of node])

lemma normalize_minimal_aux: "minimal m \<Longrightarrow> transformFigmaNode (asRaw m) = Inr m"
proof (induction m)
  case (MinimalFigmaNode i n t bb st ch cs)
  let ?m = "MinimalFigmaNode i n t bb st ch cs"
  from MinimalFigmaNode.prems have
    st: "case st of None \<Rightarrow> True | Some s \<Rightarrow> s \<noteq> empty_style \<and> fills s \<noteq> Some []"
    and ch: "case ch of None \<Rightarrow> True | Some txt \<Rightarrow> t = JStr (ustr ''TEXT'') \<and> bounded_text txt"
    and cs: "case cs of None \<Rightarrow> True | Some ms \<Rightarrow> list_all minimal ms"
    by simp_all
  have box: "node_box (asRaw ?m) = bb"
    using node_box_asRaw[of ?m] by simp
  have style: "transformStyle (get (asRaw ?m) ''style'') = st"
  proof (cases st)
    case None
    then show ?thesis
      by (simp add: get_asRaw transformStyle_def)
  next
    case (Some s)
    with st show ?thesis
      by (simp add: get_asRaw transformStyle_json)
  qed
  have chars: "node_text (asRaw ?m) = ch"
    using node_text_asRaw[of ?m] ch by (simp split: option.splits)
  have ids: "get (asRaw ?m) ''id'' = i" "get (asRaw ?m) ''name'' = n" "get (asRaw ?m) ''type'' = t"
    by (simp_all add: get_asRaw)
  show ?case
  proof (cases cs)
    case None
    then have "get (asRaw ?m) ''children'' = JUndefined"
      by (simp add: get_asRaw)
    then have "transformFigmaNode (asRaw ?m) =
           Inr (MinimalFigmaNode (get (asRaw ?m) ''id'') (get (asRaw ?m) ''name'')
                  (get (asRaw ?m) ''type'') (node_box (asRaw ?m))
                  (transformStyle (get (asRaw ?m) ''style'')) (node_text (asRaw ?m)) None)"
      by (intro transform_leaf asRaw_not_nullish) simp
    then have "transformFigmaNode (asRaw ?m) = Inr (MinimalFigmaNode i n t bb st ch None)"
      by (simp only: box style chars ids)
    with None show ?thesis
      by simp
  next
    case (Some ms)
    then have g: "get (asRaw ?m) ''children'' = JArr (map asRaw ms)"
      by (simp add: get_asRaw)
    have "transformFigmaNode (asRaw c) = Inr c" if "c \<in> set ms" for c
      using MinimalFigmaNode.IH[of ms c] that Some cs by (simp add: list_all_iff)
    then have "collect (map transformFigmaNode (map asRaw ms)) = Inr ms"
      by (rule collect_fixed)
    with g have "transformFigmaNode (asRaw ?m) =
           Inr (MinimalFigmaNode (get (asRaw ?m) ''id'') (get (asRaw ?m) ''name'')
                  (get (asRaw ?m) ''type'') (node_box (asRaw ?m))
                  (transformStyle (get (asRaw ?m) ''style'')) (node_text (asRaw ?m)) (Some ms))"
      by (intro transform_inner asRaw_not_nullish)
    then have "transformFigmaNode (asRaw ?m) = Inr (MinimalFigmaNode i n t bb st ch (Some ms))"
      by (simp only: box style chars ids)
    with Some show ?thesis
      by simp
  qed
qed

lemma transformStyle_minimal:
  "case transformStyle sty of None \<Rightarrow> True | Some s \<Rightarrow> s \<noteq> empty_style \<and> fills s \<noteq> Some []"
proof (cases "transformStyle sty")
  case (Some s)
  then have "s = style_result sty" "s \<noteq> empty_style"
    by (auto simp: transformStyle_Some)
  moreover have "fills (style_result sty) \<noteq> Some []"
    by (cases "get sty ''fills''") (simp_all add: fills_eq)
  ultimately show ?thesis
    using Some by simp
qed simp

lemma node_text_minimal:
  "case node_text node of None \<Rightarrow> True
   | Some t \<Rightarrow> get node ''type'' = JStr (ustr ''TEXT'') \<and> bounded_text t"
  by (simp add: node_text_def bounded_summarizeText)

lemma transform_minimal: "transformFigmaNode node = Inr m \<Longrightarrow> minimal m"
proof (induction node arbitrary: m rule: transformFigmaNode.induct)
  case (1 node)
  have nn: "\<not> nullish node"
    using "1.prems" by (auto simp: transformFigmaNode.simps[of node] split: if_splits)
  have f: "node_type m = get node ''type''" "node_style m = transformStyle (get node ''style'')"
    "characters m = node_text node"
    using transform_fields[OF "1.prems"] by simp_all
  have kids: "case children m of None \<Rightarrow> True | Some ms \<Rightarrow> list_all minimal ms"
  proof (cases "get node ''children''")
    case (JArr cs)
    with nn "1.prems" obtain ms where c: "collect (map transformFigmaNode cs) = Inr ms"
      and m: "children m = Some ms"
      by (auto simp: transformFigmaNode.simps[of node] split: sum.splits)
    from c have e: "map transformFigmaNode cs = map Inr ms"
      by (simp add: collect_Inr_iff)
    have "minimal x" if "x \<in> set ms" for x
    proof -
      from that obtain k where k: "k < length ms" "ms ! k = x"
        by (auto simp: in_set_conv_nth)
      from e have "length cs = length ms"
        by (metis length_map)
      with k e have "transformFigmaNode (cs ! k) = Inr x"
        by (metis nth_map)
      moreover have "cs ! k \<in> set cs"
        using k \<open>length cs = length ms\<close> by simp
      ultimately show ?thesis
        using "1.IH"[OF nn JArr] by blast
    qed
    with m show ?thesis
      by (simp add: list_all_iff)
  qed (use nn "1.prems" in \<open>auto simp: transformFigmaNode.simps[of node]\<close>)
  show ?case
    using f kids transformStyle_minimal[of "get node ''style''"] node_text_minimal[of node]
    by (simp add: minimal_iff split: option.splits)
qed

text \<open>
  C4: running the transform on a minimal node read back as a raw node returns that very
  node: nothing is added and nothing is lost. The minimal nodes are the ones with the
  invariants of the data model; by \<open>transform_minimal\<close> they are exactly what the
  transform returns.
\<close>

theorem normalize_minimal:
  "minimal m \<Longrightarrow> transformFigmaNode (asRaw m) = Inr m"
  by (rule normalize_minimal_aux)

text \<open>Hence the transform is idempotent through the reading.\<close>

lemma normalize_idempotent:
  "transformFigmaNode node = Inr m \<Longrightarrow> transformFigmaNode (asRaw m) = Inr m"
  using normalize_minimal_aux transform_minimal by blast

theorem normalize_minimal_witness:
  "minimal sample_minimal \<and> transformFigmaNode (asRaw sample_minimal) = Inr sample_minimal"
proof -
  have m: "minimal sample_minimal"
    by (simp add: sample_minimal_def empty_style_def bounded_text_def ustr_def)
  from normalize_minimal[OF m] m show ?thesis
    by simp
qed

text \<open>The interface type alone admits more: an empty style object breaks the invariant, is
  returned by no run of the transform, and is dropped when read back.\<close>

lemma empty_style_not_minimal:
  "\<not> minimal empty_style_node"
  "transformFigmaNode (asRaw empty_style_node) =
     Inr (MinimalFigmaNode (JStr (ustr ''0:3'')) (JStr (ustr ''Box'')) (JStr (ustr ''RECTANGLE''))
            None None None None)"
proof -
  show "\<not> minimal empty_style_node"
    by (simp add: empty_style_node_def)
  have "style_result (style_json empty_style) = empty_style"
    by (intro Style.equality) (simp_all add: style_result_json, simp_all add: empty_style_def)
  then have "transformStyle (style_json empty_style) = None"
    by (simp add: transformStyle_def)
  then show "transformFigmaNode (asRaw empty_style_node) =
     Inr (MinimalFigmaNode (JStr (ustr ''0:3'')) (JStr (ustr ''Box'')) (JStr (ustr ''RECTANGLE''))
            None None None None)"
    by (simp add: empty_style_node_def asRaw.simps transformFigmaNode_JObj opt_field_def
        node_box_def node_text_def ustr_def)
qed

section \<open>Properties of the handler\<close>

subsection \<open>watch\<close>

text \<open>\<open>watch\<close> compares the parsed category with \<open>'file'\<close>. A whole-document address has
  no category, so nothing is fetched for it; only the address whose category is spelled
  \<open>file\<close> reaches the fetch.\<close>

lemma watch_whole_document:
  assumes "validateUri uri = Inr addr" and "resourceType addr = None"
  shows "watch fetch uri = (Inr (), [])"
  using assms by (simp add: watch_def)

lemma watch_other_category:
  assumes "validateUri uri = Inr addr" and "resourceType addr \<noteq> Some (ustr ''file'')"
  shows "watch fetch uri = (Inr (), [])"
  using assms by (simp add: watch_def)

lemma watch_file_category:
  assumes "validateUri uri = Inr addr" and "resourceType addr = Some (ustr ''file'')"
  shows "snd (watch fetch uri) = [baseUrl @ ustr ''/files/'' @ fileKey addr]"
  using assms by (simp add: watch_def figmaRequest_def split: prod.splits sum.splits)

text \<open>
  C1: the claim is one fetch for a whole-document address and none for an address with
  a category. The code does the reverse of the first and breaks the second for the
  category \<open>file\<close>: \<open>figma:///file/ABC123\<close> is watched without any fetch, and
  \<open>figma:///file/ABC123/file\<close> fetches the document.
\<close>

theorem watch_whole_document_no_fetch:
  "watch fetch (ustr ''figma:///file/ABC123'') = (Inr (), []) \<and>
   snd (watch fetch (ustr ''figma:///file/ABC123/file'')) = [ustr ''https://api.figma.com/v1/files/ABC123'']"
proof
  have "validateUri (ustr ''figma:///file/ABC123'') =
          Inr \<lparr>fileKey = ustr ''ABC123'', resourceType = None, resourceId = None\<rparr>"
    by (simp add: validateUri_def ustr_def scheme_file_def key_char_def word_char_def)
  then show "watch fetch (ustr ''figma:///file/ABC123'') = (Inr (), [])"
    by (simp add: watch_def)
next
  have "validateUri (ustr ''figma:///file/ABC123/file'') =
          Inr \<lparr>fileKey = ustr ''ABC123'', resourceType = Some (ustr ''file''), resourceId = None\<rparr>"
    by (simp add: validateUri_def ustr_def scheme_file_def slash_def key_char_def word_char_def)
  then have "snd (watch fetch (ustr ''figma:///file/ABC123/file'')) =
          [baseUrl @ ustr ''/files/'' @ ustr ''ABC123'']"
    by (simp add: watch_def figmaRequest_def split: prod.splits sum.splits)
  then show "snd (watch fetch (ustr ''figma:///file/ABC123/file'')) =
          [ustr ''https://api.figma.com/v1/files/ABC123'']"
    by (simp add: baseUrl_def ustr_def)
qed

subsection \<open>list\<close>

lemma push_subs_eq: "push_subs resources file tys = resources @ map (sub_resource file) tys"
  by (induction tys arbitrary: resources) simp_all

lemma push_files_eq:
  "push_files resources files =
     resources @ concat (map (\<lambda>file. main_resource file # map (sub_resource file) subResources) files)"
  by (induction files arbitrary: resources) (simp_all add: push_subs_eq)

lemma main_uri:
  "res_uri (main_resource file) =
     assemble \<lparr>fileKey = file_key file, resourceType = None, resourceId = None\<rparr>"
  by (simp add: main_resource_def assemble_def scheme_file_def)

lemma sub_uri:
  "res_uri (sub_resource file ty) =
     assemble \<lparr>fileKey = file_key file, resourceType = Some ty, resourceId = None\<rparr>"
  by (simp add: sub_resource_def assemble_def scheme_file_def slash_def ustr_def)

lemma entries_uris:
  "map res_uri (main_resource file # map (sub_resource file) subResources) =
     map (\<lambda>c. assemble \<lparr>fileKey = file_key file, resourceType = c, resourceId = None\<rparr>) listed_categories"
  by (simp add: main_uri sub_uri subResources_def listed_categories_def)

lemma listed_resolves:
  assumes "key \<noteq> []" and "list_all key_char key" and "c \<in> set listed_categories"
  shows "validateUri (assemble \<lparr>fileKey = key, resourceType = c, resourceId = None\<rparr>) =
           Inr \<lparr>fileKey = key, resourceType = c, resourceId = None\<rparr>"
proof -
  have "c = None \<or> (\<exists>t. c = Some t \<and> t \<noteq> [] \<and> list_all word_char t)"
    using assms(3) by (auto simp: listed_categories_def ustr_def word_char_def)
  then have "uri_regex (assemble \<lparr>fileKey = key, resourceType = c, resourceId = None\<rparr>) key c None"
    using assms(1,2) by (auto simp: uri_regex_def assemble_def)
  then show ?thesis
    by (rule regex_accepts)
qed

text \<open>
  C2, as the specification states it, fails: the fixed set has seven categories, the loop
  of \<open>list\<close> runs over six, and no entry is made for \<open>nodes\<close>.
\<close>

theorem list_no_nodes_counterexample:
  "map res_uri (projr (list_resources (Inr [sample_file]))) =
     [ustr ''figma:///file/K'', ustr ''figma:///file/K/images'', ustr ''figma:///file/K/comments'',
      ustr ''figma:///file/K/versions'', ustr ''figma:///file/K/components'',
      ustr ''figma:///file/K/styles'', ustr ''figma:///file/K/variables''] \<and>
   ustr ''figma:///file/K/nodes'' \<notin> set (map res_uri (projr (list_resources (Inr [sample_file]))))"
  by (simp add: list_resources_def subResources_def main_resource_def sub_resource_def
      sample_file_def ustr_def)

text \<open>
  C2, amended: for every document of the upstream listing, in order, the listing holds
  one whole-document entry and one entry for each of images, comments, versions,
  components, styles and variables (none for nodes), each with the identifier
  \<open>figma:///file/<key>[/<category>]\<close>; when every key is a non-empty run of word and
  hyphen characters, each identifier resolves to its key and category.
\<close>

theorem list_entries:
  "\<exists>rs. list_resources (Inr files) = Inr rs \<and>
      map res_uri rs =
        concat (map (\<lambda>file. map (\<lambda>c. assemble \<lparr>fileKey = file_key file, resourceType = c,
                                              resourceId = None\<rparr>) listed_categories) files) \<and>
      (list_all (\<lambda>file. file_key file \<noteq> [] \<and> list_all key_char (file_key file)) files \<longrightarrow>
         map (validateUri \<circ> res_uri) rs =
           concat (map (\<lambda>file. map (\<lambda>c. Inr \<lparr>fileKey = file_key file, resourceType = c,
                                              resourceId = None\<rparr>) listed_categories) files))"
proof -
  let ?rs = "push_files [] files"
  have u: "map res_uri ?rs =
        concat (map (\<lambda>file. map (\<lambda>c. assemble \<lparr>fileKey = file_key file, resourceType = c,
                                              resourceId = None\<rparr>) listed_categories) files)"
    by (simp add: push_files_eq map_concat comp_def entries_uris del: list.map)
  have v: "map (validateUri \<circ> res_uri) ?rs =
           concat (map (\<lambda>file. map (\<lambda>c. Inr \<lparr>fileKey = file_key file, resourceType = c,
                                              resourceId = None\<rparr>) listed_categories) files)"
    if ok: "list_all (\<lambda>file. file_key file \<noteq> [] \<and> list_all key_char (file_key file)) files"
  proof -
    have "map (validateUri \<circ> res_uri) ?rs = map validateUri (map res_uri ?rs)"
      by simp
    also have "\<dots> = concat (map (\<lambda>file. map (\<lambda>c. validateUri (assemble \<lparr>fileKey = file_key file,
                        resourceType = c, resourceId = None\<rparr>)) listed_categories) files)"
      unfolding u by (simp add: map_concat comp_def)
    also have "\<dots> = concat (map (\<lambda>file. map (\<lambda>c. Inr \<lparr>fileKey = file_key file, resourceType = c,
                                              resourceId = None\<rparr>) listed_categories) files)"
      using ok by (intro arg_cong[where f=concat] map_cong refl) (auto simp: list_all_iff listed_resolves)
    finally show ?thesis .
  qed
  show ?thesis
    using u v by (simp add: list_resources_def)
qed

theorem list_entries_witness:
  "list_all (\<lambda>file. file_key file \<noteq> [] \<and> list_all key_char (file_key file)) [sample_file] \<and>
   map (validateUri \<circ> res_uri) (projr (list_resources (Inr [sample_file]))) =
     map (\<lambda>c. Inr \<lparr>fileKey = ustr ''K'', resourceType = c, resourceId = None\<rparr>) listed_categories"
proof -
  have ok: "list_all (\<lambda>file. file_key file \<noteq> [] \<and> list_all key_char (file_key file)) [sample_file]"
    by (simp add: sample_file_def ustr_def key_char_def word_char_def)
  have k: "file_key sample_file = ustr ''K''"
    by (simp add: sample_file_def)
  from list_entries[of "[sample_file]"] ok k show ?thesis
    by auto
qed

end
